theory Spec2Isabelle
  imports Complex_Main "HOL-Library.Word"
begin

section \<open>JavaScript values\<close>

text \<open>
  A JavaScript string is a sequence of UTF-16 code units. String literals of the source
  are written \<open>js ''...''\<close>.
\<close>

type_synonym jsstring = "16 word list"

definition js :: "string \<Rightarrow> jsstring" where
  "js cs = map of_char cs"

text \<open>
  The values \<open>JSON.parse\<close> can return. A number is an IEEE double: a rational, or an
  infinity when the literal overflows (\<open>JInfinity True\<close> is \<open>+Infinity\<close>). An object is
  the list of its own properties, in insertion order, each name once.
\<close>

datatype json =
    JNull
  | JBool bool
  | JNum rat
  | JInfinity bool
  | JStr jsstring
  | JArr "json list"
  | JObj "(jsstring \<times> json) list"

datatype exn = SyntaxError | TypeError | InvalidStateError

text \<open>
  The property read \<open>data.k\<close> for a name \<open>k\<close> that no built-in prototype defines (the
  source reads \<open>type\<close>, \<open>tasks\<close>, \<open>state\<close> and \<open>version\<close> only). On \<open>null\<close> it throws a
  TypeError; on an object it is the own property or \<open>undefined\<close> (\<open>None\<close>); on an array
  or a primitive it is \<open>undefined\<close>.
\<close>

fun member :: "json \<Rightarrow> jsstring \<Rightarrow> exn + json option" where
  "member JNull k = Inl TypeError"
| "member (JObj kvs) k = Inr (map_of kvs k)"
| "member (JBool b) k = Inr None"
| "member (JNum n) k = Inr None"
| "member (JInfinity p) k = Inr None"
| "member (JStr t) k = Inr None"
| "member (JArr vs) k = Inr None"

text \<open>JavaScript's ToBoolean, as \<open>if (data.tasks)\<close> applies it.\<close>

fun truthy :: "json option \<Rightarrow> bool" where
  "truthy None = False"
| "truthy (Some JNull) = False"
| "truthy (Some (JBool b)) = b"
| "truthy (Some (JNum n)) = (n \<noteq> 0)"
| "truthy (Some (JInfinity p)) = True"
| "truthy (Some (JStr t)) = (t \<noteq> [])"
| "truthy (Some (JArr vs)) = True"
| "truthy (Some (JObj kvs)) = True"

text \<open>
  \<open>String.prototype.trim\<close> strips the code units of ECMAScript's WhiteSpace and
  LineTerminator productions from both ends.
\<close>

definition is_ws :: "16 word \<Rightarrow> bool" where
  "is_ws c = (c \<in> set [0x9, 0xA, 0xB, 0xC, 0xD, 0x20, 0xA0, 0x1680, 0x2028, 0x2029,
                        0x202F, 0x205F, 0x3000, 0xFEFF]
             \<or> (0x2000 \<le> c \<and> c \<le> 0x200A))"

definition trim :: "jsstring \<Rightarrow> jsstring" where
  "trim t = rev (dropWhile is_ws (rev (dropWhile is_ws t)))"

section \<open>The state of the client\<close>

datatype level = LOG | WARN | ERROR

datatype ready_state = CONNECTING | OPEN | CLOSING | CLOSED

text \<open>
  One record holds everything the code reads and writes:
  \<^item> \<open>tasks\<close>: the \<open>tasks\<close> field of the zustand store (at run time, whatever value
    \<open>setTasks\<close> was given);
  \<^item> \<open>storageItems\<close>: the entries of \<open>sessionStorage\<close>; \<open>storageReads\<close> counts the
    \<open>getItem\<close> calls made on it;
  \<^item> \<open>wsConnected\<close>, \<open>newTaskText\<close>: the component's \<open>useState\<close> cells;
  \<^item> \<open>wsRef\<close>: whether \<open>wsRef.current\<close> holds the socket (it is \<open>null\<close> until the effect
    runs); \<open>readyState\<close> and \<open>sent\<close> are the socket's ready state and the frames it has
    transmitted, in order;
  \<^item> \<open>unmounted\<close>: whether the effect's cleanup has run;
  \<^item> \<open>console\<close>: the console output, each entry with its level and the literal text of
    its first argument.
\<close>

record app_state =
  tasks :: json
  storageItems :: "jsstring \<rightharpoonup> jsstring"
  storageReads :: nat
  wsConnected :: bool
  newTaskText :: jsstring
  wsRef :: bool
  unmounted :: bool
  readyState :: ready_state
  sent :: "jsstring list"
  console :: "(level \<times> string) list"

definition console_log :: "string \<Rightarrow> app_state \<Rightarrow> app_state" where
  "console_log m s = s\<lparr>console := console s @ [(LOG, m)]\<rparr>"

definition console_warn :: "string \<Rightarrow> app_state \<Rightarrow> app_state" where
  "console_warn m s = s\<lparr>console := console s @ [(WARN, m)]\<rparr>"

definition console_error :: "string \<Rightarrow> app_state \<Rightarrow> app_state" where
  "console_error m s = s\<lparr>console := console s @ [(ERROR, m)]\<rparr>"

section \<open>The platform: WebSocket and sessionStorage\<close>

text \<open>
  \<open>WebSocket.send\<close>: throws InvalidStateError while the socket is connecting, transmits
  the frame when it is open, and discards it when the socket is closing or closed.
\<close>

definition ws_send :: "jsstring \<Rightarrow> app_state \<Rightarrow> exn + app_state" where
  "ws_send frame s =
     (case readyState s of
        CONNECTING \<Rightarrow> Inl InvalidStateError
      | OPEN \<Rightarrow> Inr (s\<lparr>sent := sent s @ [frame]\<rparr>)
      | CLOSING \<Rightarrow> Inr s
      | CLOSED \<Rightarrow> Inr s)"

text \<open>
  \<open>WebSocket.close\<close>: nothing on a socket that is closing or closed; otherwise the
  socket starts closing.
\<close>

definition ws_close :: "app_state \<Rightarrow> app_state" where
  "ws_close s =
     (case readyState s of
        CONNECTING \<Rightarrow> s\<lparr>readyState := CLOSING\<rparr>
      | OPEN \<Rightarrow> s\<lparr>readyState := CLOSING\<rparr>
      | CLOSING \<Rightarrow> s
      | CLOSED \<Rightarrow> s)"

definition storage_getItem :: "jsstring \<Rightarrow> app_state \<Rightarrow> jsstring option \<times> app_state" where
  "storage_getItem k s = (storageItems s k, s\<lparr>storageReads := Suc (storageReads s)\<rparr>)"

text \<open>\<open>setItem\<close> on a storage with room left (a full storage is outside this model).\<close>

definition storage_setItem :: "jsstring \<Rightarrow> jsstring \<Rightarrow> app_state \<Rightarrow> app_state" where
  "storage_setItem k v s = s\<lparr>storageItems := (storageItems s)(k \<mapsto> v)\<rparr>"

section \<open>The store (store/todo.ts)\<close>

text \<open>
  The store is \<open>create(persist(config, options))\<close> with the options
  \<open>name: 'todo-store'\<close> and \<open>storage: createJSONStorage(() => sessionStorage)\<close>.
  \<open>JSON.stringify\<close> and \<open>JSON.parse\<close> are parameters of the model; \<open>parse\<close> returns
  \<open>None\<close> where \<open>JSON.parse\<close> throws a SyntaxError.
\<close>

definition persist_name :: jsstring where
  "persist_name = js ''todo-store''"

text \<open>
  Modelled from the spec: the \<open>persist\<close> middleware is library code and not among the
  sources of the repository. The spec has one storage entry under the fixed name, holding
  the serialised list. The value serialised is the one the library documents for its JSON
  storage: \<open>{state, version}\<close>, the functions of the state left out and the version 0.
\<close>

definition stored_value :: "json \<Rightarrow> json" where
  "stored_value t = JObj [(js ''state'', JObj [(js ''tasks'', t)]), (js ''version'', JNum 0)]"

text \<open>
  Modelled from the spec: the write the missing \<open>persist\<close> middleware makes after every
  \<open>set\<close>. The spec has the entry written on every call that replaces the list.
\<close>

definition persist_write :: "(json \<Rightarrow> jsstring) \<Rightarrow> app_state \<Rightarrow> app_state" where
  "persist_write stringify s =
     storage_setItem persist_name (stringify (stored_value (tasks s))) s"

text \<open>\<open>setTasks: (newTasks) => { set({ tasks: newTasks }) }\<close>, with the persisting \<open>set\<close>.\<close>

definition setTasks :: "(json \<Rightarrow> jsstring) \<Rightarrow> json \<Rightarrow> app_state \<Rightarrow> app_state" where
  "setTasks stringify newTasks s = persist_write stringify (s\<lparr>tasks := newTasks\<rparr>)"

text \<open>The read path of the view: \<open>const { tasks } = useTodoStore()\<close>.\<close>

definition getTasks :: "app_state \<Rightarrow> json" where
  "getTasks s = tasks s"

text \<open>
  Modelled from the spec: how the missing \<open>persist\<close> middleware takes a stored entry
  back, so that a reload restores the last snapshot. A falsy entry, or one whose \<open>version\<close>
  is a number other than 0, is not applied (the options give no \<open>migrate\<close>); otherwise the
  own properties of the entry's \<open>state\<close> are spread over the state, so an own \<open>tasks\<close>
  property replaces the list.
\<close>

fun version_differs :: "json option \<Rightarrow> bool" where
  "version_differs (Some (JNum n)) = (n \<noteq> 0)"
| "version_differs (Some (JInfinity p)) = True"
| "version_differs ver = False"

definition merge_stored :: "json \<Rightarrow> app_state \<Rightarrow> app_state" where
  "merge_stored v s =
     (if \<not> truthy (Some v) then s
      else case member v (js ''version'') of
        Inl e \<Rightarrow> s
      | Inr ver \<Rightarrow>
          if version_differs ver then s
          else (case member v (js ''state'') of
                  Inr (Some (JObj st)) \<Rightarrow>
                    (case map_of st (js ''tasks'') of Some t \<Rightarrow> s\<lparr>tasks := t\<rparr> | None \<Rightarrow> s)
                | _ \<Rightarrow> s))"

text \<open>
  Modelled from the spec: the one read of the entry the missing \<open>persist\<close> middleware
  makes when the store is created. The spec has the entry read once at store
  initialisation. An absent or unparsable entry leaves the initial state.
\<close>

definition hydrate :: "(jsstring \<Rightarrow> json option) \<Rightarrow> app_state \<Rightarrow> app_state" where
  "hydrate parse s =
     (case storage_getItem persist_name s of
        (None, s1) \<Rightarrow> s1
      | (Some str, s1) \<Rightarrow>
          (case parse str of None \<Rightarrow> s1 | Some v \<Rightarrow> merge_stored v s1))"

text \<open>
  Loading the page with the given \<open>sessionStorage\<close> entries: the store module is
  evaluated first (\<open>tasks: []\<close>, then the stored entry), then the module of the component
  logs its three addresses and the component renders with its initial \<open>useState\<close>
  values. No socket exists yet.
\<close>

definition page_load :: "(jsstring \<Rightarrow> json option) \<Rightarrow> (jsstring \<rightharpoonup> jsstring) \<Rightarrow> app_state" where
  "page_load parse items =
     console_log ''WEBSOCKET_URL:'' (console_log ''PROXY_TARGET:'' (console_log ''BASE_URL:''
       (hydrate parse
          \<lparr>tasks = JArr [], storageItems = items, storageReads = 0, wsConnected = False,
           newTaskText = [], wsRef = False, unmounted = False, readyState = CLOSED,
           sent = [], console = []\<rparr>)))"

section \<open>The component (App.tsx)\<close>

text \<open>
  The messages are the object literals of the source. The text of the input field is a
  string. The task identifier is whatever \<open>task.id\<close> is at run time for a task of the
  stored list, which the client never validates: any JSON value, or \<open>undefined\<close> (\<open>None\<close>)
  when the task has no \<open>id\<close>. \<open>JSON.stringify\<close> leaves out a property whose value is
  \<open>undefined\<close>, so the message it serialises then has no \<open>id\<close>.
\<close>

definition get_tasks_msg :: json where
  "get_tasks_msg = JObj [(js ''action'', JStr (js ''get_tasks''))]"

definition add_task_msg :: "jsstring \<Rightarrow> json" where
  "add_task_msg taskText =
     JObj [(js ''action'', JStr (js ''add_task'')), (js ''text'', JStr taskText)]"

definition toggle_task_msg :: "json option \<Rightarrow> json" where
  "toggle_task_msg taskId =
     (case taskId of
        None \<Rightarrow> JObj [(js ''action'', JStr (js ''toggle_task''))]
      | Some v \<Rightarrow> JObj [(js ''action'', JStr (js ''toggle_task'')), (js ''id'', v)])"

definition sendWsMessage :: "(json \<Rightarrow> jsstring) \<Rightarrow> json \<Rightarrow> app_state \<Rightarrow> exn + app_state" where
  "sendWsMessage stringify message s =
     (if wsRef s \<and> readyState s = OPEN then ws_send (stringify message) s else Inr s)"

definition fetchTasks :: "(json \<Rightarrow> jsstring) \<Rightarrow> app_state \<Rightarrow> exn + app_state" where
  "fetchTasks stringify s =
     (if wsConnected s \<and> wsRef s then sendWsMessage stringify get_tasks_msg s
      else Inr (console_warn ''Cannot fetch tasks: WebSocket not connected'' s))"

definition handleAddTask :: "(json \<Rightarrow> jsstring) \<Rightarrow> app_state \<Rightarrow> exn + app_state" where
  "handleAddTask stringify s =
     (if trim (newTaskText s) = [] then Inr s
      else if wsConnected s \<and> wsRef s then
        (case sendWsMessage stringify (add_task_msg (newTaskText s)) s of
           Inl e \<Rightarrow> Inl e
         | Inr s' \<Rightarrow> Inr (s'\<lparr>newTaskText := []\<rparr>))
      else Inr (console_warn ''Cannot add task: WebSocket not connected'' s))"

definition handleToggleComplete ::
  "(json \<Rightarrow> jsstring) \<Rightarrow> json option \<Rightarrow> app_state \<Rightarrow> exn + app_state" where
  "handleToggleComplete stringify taskId s =
     (if wsConnected s \<and> wsRef s then sendWsMessage stringify (toggle_task_msg taskId) s
      else Inr (console_warn ''Cannot toggle task: WebSocket not connected'' s))"

text \<open>
  The checkboxes of the view: \<open>tasks.map((task) => ...)\<close> gives every task of the list a
  checkbox whose \<open>onChange\<close> calls \<open>handleToggleComplete(task.id)\<close>. \<open>task_checkbox k s\<close> is
  the argument the checkbox of the task at index \<open>k\<close> passes, and \<open>None\<close> when the view
  shows no such checkbox: the list is not an array or is shorter, or it has a \<open>null\<close>
  element, on which reading \<open>task.id\<close> throws while the view renders.
\<close>

definition task_checkbox :: "nat \<Rightarrow> app_state \<Rightarrow> json option option" where
  "task_checkbox k s =
     (case tasks s of
        JArr ts \<Rightarrow>
          if k < length ts \<and> JNull \<notin> set ts
          then (case member (ts ! k) (js ''id'') of Inl e \<Rightarrow> None | Inr taskId \<Rightarrow> Some taskId)
          else None
      | _ \<Rightarrow> None)"

text \<open>
  \<open>setWsConnected\<close>, the setter of the \<open>useState\<close> cell. React drops a state update of a
  component that has unmounted, and the socket's handlers can still run then.
\<close>

definition setWsConnected :: "bool \<Rightarrow> app_state \<Rightarrow> app_state" where
  "setWsConnected b s = (if unmounted s then s else s\<lparr>wsConnected := b\<rparr>)"

text \<open>
  The body of the effect: \<open>new WebSocket(WEBSOCKET_URL)\<close>, kept in \<open>wsRef\<close>. The new
  socket is connecting and has sent nothing.
\<close>

definition mount :: "app_state \<Rightarrow> app_state" where
  "mount s = s\<lparr>wsRef := True, readyState := CONNECTING, sent := []\<rparr>"

definition onopen :: "(json \<Rightarrow> jsstring) \<Rightarrow> app_state \<Rightarrow> exn + app_state" where
  "onopen stringify s =
     ws_send (stringify get_tasks_msg)
       (setWsConnected True (console_log ''WebSocket connection opened:'' s))"

text \<open>
  The \<open>catch\<close> block of \<open>onmessage\<close>. Inside the \<open>try\<close>, \<open>JSON.parse\<close> can throw, and so
  can the read of \<open>data.type\<close> (on \<open>null\<close>); the store is untouched at both points, and
  the catch block gets the state as it is there.
\<close>

definition onmessage_catch :: "app_state \<Rightarrow> app_state" where
  "onmessage_catch s = console_error ''Error parsing WebSocket message:'' s"

definition is_task_type :: "json option \<Rightarrow> bool" where
  "is_task_type ty =
     (ty = Some (JStr (js ''tasks_overview'')) \<or> ty = Some (JStr (js ''task_added''))
      \<or> ty = Some (JStr (js ''task_toggled'')))"

definition onmessage ::
  "(jsstring \<Rightarrow> json option) \<Rightarrow> (json \<Rightarrow> jsstring) \<Rightarrow> jsstring \<Rightarrow> app_state \<Rightarrow> exn + app_state" where
  "onmessage parse stringify frame s =
     (let s1 = console_log ''WebSocket message received:'' s in
      case parse frame of
        None \<Rightarrow> Inr (onmessage_catch s1)
      | Some d \<Rightarrow>
          (let s2 = console_log ''Parsed WebSocket message:'' s1 in
           case member d (js ''type'') of
             Inl e \<Rightarrow> Inr (onmessage_catch s2)
           | Inr ty \<Rightarrow>
               if is_task_type ty then
                 (case member d (js ''tasks'') of
                    Inl e \<Rightarrow> Inr (onmessage_catch s2)
                  | Inr None \<Rightarrow> Inr s2
                  | Inr (Some v) \<Rightarrow>
                      if truthy (Some v)
                      then Inr (setTasks stringify v
                                  (console_log ''Updating tasks from WebSocket:'' s2))
                      else Inr s2)
               else Inr s2))"

definition onclose :: "app_state \<Rightarrow> app_state" where
  "onclose s = setWsConnected False (console_log ''WebSocket connection closed:'' s)"

definition onerror :: "app_state \<Rightarrow> app_state" where
  "onerror s = setWsConnected False (console_error ''WebSocket error:'' s)"

text \<open>The cleanup the effect returns.\<close>

definition cleanup :: "app_state \<Rightarrow> app_state" where
  "cleanup s =
     (let s1 = console_log ''Closing WebSocket connection'' s in
      if readyState s1 = OPEN then ws_close s1 else s1)"

section \<open>Events\<close>

text \<open>
  What can happen to the component, and when the platform lets it happen:
  \<^item> the effect runs once after the first render, and its cleanup once, on unmount;
  \<^item> the user types, submits the text (button or Enter), ticks the checkbox of the task
    at some index of the list or asks for a refresh, as long as the component is
    mounted (a list the view fails to render ends the component; the unmount can come
    at any time here);
  \<^item> the socket opens (from CONNECTING, and the platform sets OPEN before it calls
    \<open>onopen\<close>), delivers a message (only while OPEN), starts closing on the server's
    request, closes, or fails (the platform sets CLOSED, then calls \<open>onerror\<close> and
    \<open>onclose\<close>).
  An event the platform cannot deliver in a state is \<open>NotEnabled\<close> there; an exception
  that leaves a handler is \<open>Uncaught\<close>.
\<close>

datatype event =
    Mount
  | Unmount
  | ChangeText jsstring
  | SubmitText
  | ToggleTask nat
  | Refresh
  | SockOpen
  | SockMessage jsstring
  | SockClosing
  | SockClose
  | SockError

datatype fault = NotEnabled | Uncaught exn

definition handled :: "exn + app_state \<Rightarrow> fault + app_state" where
  "handled r = (case r of Inl e \<Rightarrow> Inl (Uncaught e) | Inr s \<Rightarrow> Inr s)"

fun fire ::
  "(jsstring \<Rightarrow> json option) \<Rightarrow> (json \<Rightarrow> jsstring) \<Rightarrow> event \<Rightarrow> app_state \<Rightarrow> fault + app_state" where
  "fire parse stringify Mount s =
     (if \<not> wsRef s \<and> \<not> unmounted s then Inr (mount s) else Inl NotEnabled)"
| "fire parse stringify Unmount s =
     (if wsRef s \<and> \<not> unmounted s then Inr ((cleanup s)\<lparr>unmounted := True\<rparr>)
      else Inl NotEnabled)"
| "fire parse stringify (ChangeText t) s =
     (if \<not> unmounted s then Inr (s\<lparr>newTaskText := t\<rparr>) else Inl NotEnabled)"
| "fire parse stringify SubmitText s =
     (if \<not> unmounted s then handled (handleAddTask stringify s) else Inl NotEnabled)"
| "fire parse stringify (ToggleTask k) s =
     (if \<not> unmounted s then
        (case task_checkbox k s of
           None \<Rightarrow> Inl NotEnabled
         | Some taskId \<Rightarrow> handled (handleToggleComplete stringify taskId s))
      else Inl NotEnabled)"
| "fire parse stringify Refresh s =
     (if \<not> unmounted s then handled (fetchTasks stringify s) else Inl NotEnabled)"
| "fire parse stringify SockOpen s =
     (if wsRef s \<and> readyState s = CONNECTING
      then handled (onopen stringify (s\<lparr>readyState := OPEN\<rparr>)) else Inl NotEnabled)"
| "fire parse stringify (SockMessage frame) s =
     (if wsRef s \<and> readyState s = OPEN
      then handled (onmessage parse stringify frame s) else Inl NotEnabled)"
| "fire parse stringify SockClosing s =
     (if wsRef s \<and> readyState s = OPEN then Inr (s\<lparr>readyState := CLOSING\<rparr>)
      else Inl NotEnabled)"
| "fire parse stringify SockClose s =
     (if wsRef s \<and> readyState s \<noteq> CLOSED then Inr (onclose (s\<lparr>readyState := CLOSED\<rparr>))
      else Inl NotEnabled)"
| "fire parse stringify SockError s =
     (if wsRef s \<and> readyState s \<noteq> CLOSED
      then Inr (onclose (onerror (s\<lparr>readyState := CLOSED\<rparr>))) else Inl NotEnabled)"

fun run ::
  "(jsstring \<Rightarrow> json option) \<Rightarrow> (json \<Rightarrow> jsstring) \<Rightarrow> event list \<Rightarrow> app_state
     \<Rightarrow> fault + app_state" where
  "run parse stringify [] s = Inr s"
| "run parse stringify (e # es) s =
     (case fire parse stringify e s of
        Inl f \<Rightarrow> Inl f
      | Inr s' \<Rightarrow> run parse stringify es s')"

section \<open>Auxiliary notions\<close>

text \<open>The state without its console output.\<close>

definition quiet :: "app_state \<Rightarrow> app_state" where
  "quiet s = s\<lparr>console := []\<rparr>"

text \<open>The messages the handlers build; an \<open>add_task\<close> message never has blank text.\<close>

definition action_msg :: "json \<Rightarrow> bool" where
  "action_msg m =
     (m = get_tasks_msg \<or> (\<exists>t. trim t \<noteq> [] \<and> m = add_task_msg t) \<or> (\<exists>i. m = toggle_task_msg i))"

text \<open>
  What holds in every state the events can reach from a page load with the storage
  entries \<open>items\<close>.
\<close>

definition inv ::
  "(jsstring \<Rightarrow> json option) \<Rightarrow> (json \<Rightarrow> jsstring) \<Rightarrow> (jsstring \<rightharpoonup> jsstring) \<Rightarrow> app_state \<Rightarrow> bool" where
  "inv P S items s =
     ((wsConnected s \<longrightarrow> wsRef s \<and> readyState s \<noteq> CONNECTING)
    \<and> (\<not> wsRef s \<or> readyState s = CONNECTING \<longrightarrow> sent s = [])
    \<and> (\<exists>msgs. sent s = map S msgs \<and> list_all action_msg msgs)
    \<and> storageReads s = 1
    \<and> (storageItems s = items \<and> tasks s = tasks (page_load P items)
        \<or> storageItems s = items(persist_name \<mapsto> S (stored_value (tasks s)))))"

section \<open>Basic facts\<close>

lemmas handler_defs = fetchTasks_def handleAddTask_def handleToggleComplete_def
  sendWsMessage_def ws_send_def ws_close_def onopen_def onmessage_def onmessage_catch_def
  onclose_def onerror_def cleanup_def mount_def handled_def setWsConnected_def
  console_log_def console_warn_def console_error_def
  setTasks_def persist_write_def storage_setItem_def

lemmas load_defs = page_load_def hydrate_def storage_getItem_def merge_stored_def
  stored_value_def persist_name_def console_log_def

lemma tasks_setTasks: "tasks (setTasks stringify L s) = L"
  by (simp add: setTasks_def persist_write_def storage_setItem_def)

lemma hydrate_fields:
  "storageItems (hydrate P s) = storageItems s"
  "storageReads (hydrate P s) = Suc (storageReads s)"
  "wsConnected (hydrate P s) = wsConnected s"
  "wsRef (hydrate P s) = wsRef s"
  "sent (hydrate P s) = sent s"
  "readyState (hydrate P s) = readyState s"
  "unmounted (hydrate P s) = unmounted s"
  "newTaskText (hydrate P s) = newTaskText s"
  "console (hydrate P s) = console s"
  by (auto simp: hydrate_def storage_getItem_def merge_stored_def
      split: option.splits sum.splits json.splits)

lemma page_load_fields:
  "storageItems (page_load P items) = items"
  "storageReads (page_load P items) = 1"
  "\<not> wsConnected (page_load P items)"
  "\<not> wsRef (page_load P items)"
  "sent (page_load P items) = []"
  "\<not> unmounted (page_load P items)"
  "newTaskText (page_load P items) = []"
  by (simp_all add: page_load_def console_log_def hydrate_fields)

lemma add_task_msg_distinct:
  "add_task_msg t \<noteq> get_tasks_msg"
  "add_task_msg t \<noteq> toggle_task_msg i"
  "add_task_msg t = add_task_msg t' \<longleftrightarrow> t = t'"
  by (auto simp: add_task_msg_def get_tasks_msg_def toggle_task_msg_def js_def
        split: option.splits)

subsection \<open>The console decides nothing\<close>

lemma task_checkbox_console: "task_checkbox k (s\<lparr>console := c\<rparr>) = task_checkbox k s"
  by (simp add: task_checkbox_def)

lemma fire_console:
  "map_sum id quiet (fire P S e (s\<lparr>console := c\<rparr>)) = map_sum id quiet (fire P S e s)"
  by (cases e)
     (auto simp: handler_defs quiet_def Let_def task_checkbox_console
           split: ready_state.splits sum.splits option.splits)

lemma quiet_eq: "quiet t = quiet s \<Longrightarrow> t = s\<lparr>console := console t\<rparr>"
  by (cases s, cases t) (simp add: quiet_def)

lemma fire_quiet:
  assumes "quiet t = quiet s"
  shows "map_sum id quiet (fire P S e t) = map_sum id quiet (fire P S e s)"
  using fire_console[where P=P and S=S and e=e and s=s and c="console t"] quiet_eq[OF assms]
  by simp

lemma run_quiet:
  "quiet t = quiet s \<Longrightarrow> map_sum id quiet (run P S evs t) = map_sum id quiet (run P S evs s)"
proof (induction evs arbitrary: s t)
  case Nil
  then show ?case by simp
next
  case (Cons e es)
  show ?case
  proof (cases "fire P S e s")
    case (Inl f)
    with fire_quiet[OF Cons.prems, of P S e] show ?thesis
      by (cases "fire P S e t") auto
  next
    case (Inr s1)
    with fire_quiet[OF Cons.prems, of P S e]
    obtain t1 where t1: "fire P S e t = Inr t1" "quiet t1 = quiet s1"
      by (cases "fire P S e t") auto
    with Inr Cons.IH[OF t1(2)] show ?thesis by simp
  qed
qed

subsection \<open>What every reachable state satisfies\<close>

lemma inv_page_load: "inv P S items (page_load P items)"
  by (simp add: inv_def page_load_fields)

lemma sent_snoc_action:
  "sent s = map S msgs \<Longrightarrow> list_all action_msg msgs \<Longrightarrow> action_msg m \<Longrightarrow>
   \<exists>msgs'. sent s @ [S m] = map S msgs' \<and> list_all action_msg msgs'"
  by (rule exI[of _ "msgs @ [m]"]) simp

lemma fire_sent:
  assumes "fire P S e s = Inr s'"
  shows "sent s' = sent s \<or> sent s' = [] \<or> (\<exists>m. action_msg m \<and> sent s' = sent s @ [S m])"
proof (cases e)
  case SubmitText
  with assms show ?thesis
    by (auto simp: handler_defs action_msg_def split: if_splits ready_state.splits)
next
  case (ToggleTask k)
  with assms show ?thesis
    by (auto simp: handler_defs action_msg_def
          split: if_splits ready_state.splits option.splits)
next
  case Refresh
  with assms show ?thesis
    by (auto simp: handler_defs action_msg_def split: if_splits ready_state.splits)
next
  case SockOpen
  with assms show ?thesis
    by (auto simp: handler_defs action_msg_def split: if_splits ready_state.splits)
next
  case (SockMessage f)
  with assms show ?thesis
    by (auto simp: handler_defs Let_def split: if_splits option.splits sum.splits)
qed (use assms in \<open>auto simp: handler_defs Let_def split: if_splits ready_state.splits\<close>)

lemma fire_connected:
  assumes "fire P S e s = Inr s'"
      and "wsConnected s \<longrightarrow> wsRef s \<and> readyState s \<noteq> CONNECTING"
  shows "wsConnected s' \<longrightarrow> wsRef s' \<and> readyState s' \<noteq> CONNECTING"
  using assms
  by (cases e)
     (auto simp: handler_defs Let_def
           split: if_splits ready_state.splits option.splits sum.splits)

lemma fire_nothing_sent:
  assumes "fire P S e s = Inr s'"
      and "\<not> wsRef s \<or> readyState s = CONNECTING \<longrightarrow> sent s = []"
  shows "\<not> wsRef s' \<or> readyState s' = CONNECTING \<longrightarrow> sent s' = []"
  using assms
  by (cases e)
     (auto simp: handler_defs Let_def
           split: if_splits ready_state.splits option.splits sum.splits)

lemma fire_reads:
  assumes "fire P S e s = Inr s'"
  shows "storageReads s' = storageReads s"
  using assms
  by (cases e)
     (auto simp: handler_defs Let_def
           split: if_splits ready_state.splits option.splits sum.splits)

lemma fire_storage:
  assumes "fire P S e s = Inr s'"
  shows "storageItems s' = storageItems s \<and> tasks s' = tasks s
         \<or> storageItems s' = (storageItems s)(persist_name \<mapsto> S (stored_value (tasks s')))"
  using assms
  by (cases e)
     (auto simp: handler_defs Let_def
           split: if_splits ready_state.splits option.splits sum.splits)

lemma fire_inv:
  assumes "inv P S items s" and "fire P S e s = Inr s'"
  shows "inv P S items s'"
proof -
  from assms(1) obtain msgs where msgs: "sent s = map S msgs" "list_all action_msg msgs"
    by (auto simp: inv_def)
  have frames: "\<exists>msgs'. sent s' = map S msgs' \<and> list_all action_msg msgs'"
    using fire_sent[OF assms(2)]
  proof (elim disjE exE conjE)
    assume "sent s' = sent s"
    with msgs show ?thesis by auto
  next
    assume "sent s' = []"
    then show ?thesis by (intro exI[of _ "[]"]) simp
  next
    fix m
    assume "action_msg m" "sent s' = sent s @ [S m]"
    with sent_snoc_action[OF msgs] show ?thesis by simp
  qed
  have stored: "storageItems s' = items \<and> tasks s' = tasks (page_load P items)
        \<or> storageItems s' = items(persist_name \<mapsto> S (stored_value (tasks s')))"
    using fire_storage[OF assms(2)] assms(1) by (auto simp: inv_def)
  show ?thesis
    unfolding inv_def
    using fire_connected[OF assms(2)] fire_nothing_sent[OF assms(2)] fire_reads[OF assms(2)]
      frames stored assms(1)
    by (simp add: inv_def)
qed

lemma run_inv: "inv P S items s \<Longrightarrow> run P S evs s = Inr s' \<Longrightarrow> inv P S items s'"
proof (induction evs arbitrary: s)
  case Nil
  then show ?case by simp
next
  case (Cons e es)
  then show ?case by (auto split: sum.splits dest: fire_inv)
qed

lemma reachable_inv: "run P S evs (page_load P items) = Inr s \<Longrightarrow> inv P S items s"
  by (rule run_inv[OF inv_page_load])

text \<open>No exception leaves a handler, and so none ends a run.\<close>

lemma fire_no_uncaught: "fire P S e s \<noteq> Inl (Uncaught x)"
  by (cases e)
     (auto simp: handler_defs Let_def
           split: if_splits ready_state.splits option.splits sum.splits)

subsection \<open>A socket opens once\<close>

lemma fire_opened:
  assumes "fire P S e s = Inr s'" and "wsRef s \<and> readyState s \<noteq> CONNECTING"
  shows "wsRef s' \<and> readyState s' \<noteq> CONNECTING"
  using assms
  by (cases e)
     (auto simp: handler_defs Let_def
           split: if_splits ready_state.splits option.splits sum.splits)

lemma run_opened:
  "run P S evs s = Inr s' \<Longrightarrow> wsRef s \<and> readyState s \<noteq> CONNECTING \<Longrightarrow>
   wsRef s' \<and> readyState s' \<noteq> CONNECTING"
proof (induction evs arbitrary: s)
  case Nil
  then show ?case by simp
next
  case (Cons e es)
  then show ?case by (auto split: sum.splits dest: fire_opened)
qed

lemma fire_SockOpen_opened:
  "fire P S SockOpen s = Inr s' \<Longrightarrow> wsRef s' \<and> readyState s' \<noteq> CONNECTING"
  by (auto simp: handler_defs split: if_splits)

lemma run_after_SockOpen:
  "run P S evs s = Inr s' \<Longrightarrow> SockOpen \<in> set evs \<Longrightarrow>
   wsRef s' \<and> readyState s' \<noteq> CONNECTING"
proof (induction evs arbitrary: s)
  case Nil
  then show ?case by simp
next
  case (Cons e es)
  from Cons.prems(1) obtain s1 where s1: "fire P S e s = Inr s1" "run P S es s1 = Inr s'"
    by (auto split: sum.splits)
  show ?case
  proof (cases "e = SockOpen")
    case True
    with s1 fire_SockOpen_opened run_opened show ?thesis by blast
  next
    case False
    with Cons.prems(2) have "SockOpen \<in> set es" by simp
    from Cons.IH[OF s1(2) this] show ?thesis .
  qed
qed

section \<open>The store replaces the list\<close>

text \<open>
  C3. For every value \<open>L\<close>, \<open>getTasks\<close> right after \<open>setTasks L\<close> returns exactly \<open>L\<close>,
  whatever the store held before; so after any sequence of \<open>setTasks\<close> calls the store
  holds the argument of the last one.
\<close>

theorem setTasks_then_getTasks:
  "getTasks (setTasks stringify L s) = L
   \<and> getTasks (foldl (\<lambda>st l. setTasks stringify l st) s (Ls @ [L])) = L"
  by (simp add: getTasks_def tasks_setTasks)

section \<open>Inbound frames\<close>

text \<open>
  C1. When a frame parses to an object whose \<open>type\<close> is one of \<open>tasks_overview\<close>,
  \<open>task_added\<close>, \<open>task_toggled\<close> and whose \<open>tasks\<close> field is an array (the empty array
  included), \<open>onmessage\<close> returns normally and the store then holds exactly that array,
  elements and order untouched. The resulting state is the same expression for the three
  types: three console entries, then \<open>setTasks\<close> of the array.
\<close>

theorem task_frame_replaces_list:
  assumes "parse frame = Some d"
      and "member d (js ''type'') = Inr (Some (JStr ty))"
      and "ty = js ''tasks_overview'' \<or> ty = js ''task_added'' \<or> ty = js ''task_toggled''"
      and "member d (js ''tasks'') = Inr (Some (JArr ts))"
  shows "\<exists>s'. onmessage parse stringify frame s = Inr s' \<and> getTasks s' = JArr ts
           \<and> s' = setTasks stringify (JArr ts)
                    (s\<lparr>console := console s @
                        [(LOG, ''WebSocket message received:''),
                         (LOG, ''Parsed WebSocket message:''),
                         (LOG, ''Updating tasks from WebSocket:'')]\<rparr>)"
  using assms
  by (auto simp: onmessage_def is_task_type_def getTasks_def tasks_setTasks console_log_def)

theorem task_frame_replaces_list_witness:
  "\<exists>s'. onmessage
          [js ''frame'' \<mapsto> JObj [(js ''type'', JStr (js ''task_added'')),
             (js ''tasks'', JArr [JObj [(js ''id'', JStr (js ''t1'')),
                (js ''text'', JStr (js ''Buy milk'')), (js ''completed'', JBool False)]])]]
          (\<lambda>m. js ''snapshot'') (js ''frame'')
          ((page_load Map.empty Map.empty)\<lparr>tasks := JArr [JNull, JNull]\<rparr>) = Inr s'
      \<and> getTasks s' = JArr [JObj [(js ''id'', JStr (js ''t1'')),
                (js ''text'', JStr (js ''Buy milk'')), (js ''completed'', JBool False)]]"
proof -
  let ?ts = "[JObj [(js ''id'', JStr (js ''t1'')),
                (js ''text'', JStr (js ''Buy milk'')), (js ''completed'', JBool False)]]"
  let ?d = "JObj [(js ''type'', JStr (js ''task_added'')), (js ''tasks'', JArr ?ts)]"
  let ?P = "[js ''frame'' \<mapsto> ?d]"
  have 1: "?P (js ''frame'') = Some ?d" by simp
  have 2: "member ?d (js ''type'') = Inr (Some (JStr (js ''task_added'')))" by (simp add: js_def)
  have 3: "js ''task_added'' = js ''tasks_overview'' \<or> js ''task_added'' = js ''task_added''
           \<or> js ''task_added'' = js ''task_toggled''" by simp
  have 4: "member ?d (js ''tasks'') = Inr (Some (JArr ?ts))" by (simp add: js_def)
  from task_frame_replaces_list[where parse="?P" and frame="js ''frame''", OF 1 2 3 4]
  show ?thesis by blast
qed

text \<open>
  C4, as the code has it. A frame that does not parse is dropped with one error entry, and
  so is the frame \<open>null\<close> (reading its \<open>type\<close> throws); a frame that parses to any other
  value without a \<open>tasks\<close> field is dropped with no error entry, only the two log entries
  every parsed frame gets. In all three cases nothing but the console changes, so the list
  is untouched; and \<open>onmessage\<close> returns normally on every frame.
\<close>

theorem malformed_frames_dropped:
  "(parse frame = None \<longrightarrow>
      onmessage parse stringify frame s =
        Inr (s\<lparr>console := console s @
               [(LOG, ''WebSocket message received:''),
                (ERROR, ''Error parsing WebSocket message:'')]\<rparr>))
   \<and> (parse frame = Some JNull \<longrightarrow>
      onmessage parse stringify frame s =
        Inr (s\<lparr>console := console s @
               [(LOG, ''WebSocket message received:''),
                (LOG, ''Parsed WebSocket message:''),
                (ERROR, ''Error parsing WebSocket message:'')]\<rparr>))
   \<and> (\<forall>d. parse frame = Some d \<and> member d (js ''tasks'') = Inr None \<longrightarrow>
        onmessage parse stringify frame s =
          Inr (s\<lparr>console := console s @
                 [(LOG, ''WebSocket message received:''),
                  (LOG, ''Parsed WebSocket message:'')]\<rparr>))
   \<and> (\<exists>s'. onmessage parse stringify frame s = Inr s')"
proof (intro conjI allI impI)
  assume "parse frame = None"
  then show "onmessage parse stringify frame s =
        Inr (s\<lparr>console := console s @
               [(LOG, ''WebSocket message received:''),
                (ERROR, ''Error parsing WebSocket message:'')]\<rparr>)"
    by (simp add: onmessage_def onmessage_catch_def console_log_def console_error_def)
next
  assume "parse frame = Some JNull"
  then show "onmessage parse stringify frame s =
        Inr (s\<lparr>console := console s @
               [(LOG, ''WebSocket message received:''),
                (LOG, ''Parsed WebSocket message:''),
                (ERROR, ''Error parsing WebSocket message:'')]\<rparr>)"
    by (simp add: onmessage_def onmessage_catch_def console_log_def console_error_def)
next
  fix d
  assume "parse frame = Some d \<and> member d (js ''tasks'') = Inr None"
  then show "onmessage parse stringify frame s =
          Inr (s\<lparr>console := console s @
                 [(LOG, ''WebSocket message received:''),
                  (LOG, ''Parsed WebSocket message:'')]\<rparr>)"
    by (cases d) (auto simp: onmessage_def console_log_def Let_def)
next
  show "\<exists>s'. onmessage parse stringify frame s = Inr s'"
    by (auto simp: onmessage_def Let_def split: option.splits sum.splits)
qed

theorem malformed_frames_dropped_witness:
  "Map.empty (js ''{oops'') = (None :: json option)
   \<and> onmessage Map.empty (\<lambda>m. js ''snapshot'') (js ''{oops'') (page_load Map.empty Map.empty) =
       Inr ((page_load Map.empty Map.empty)\<lparr>console := console (page_load Map.empty Map.empty) @
               [(LOG, ''WebSocket message received:''),
                (ERROR, ''Error parsing WebSocket message:'')]\<rparr>)
   \<and> [js ''null'' \<mapsto> JNull] (js ''null'') = Some JNull
   \<and> onmessage [js ''null'' \<mapsto> JNull] (\<lambda>m. js ''snapshot'') (js ''null'')
        (page_load Map.empty Map.empty) =
       Inr ((page_load Map.empty Map.empty)\<lparr>console := console (page_load Map.empty Map.empty) @
               [(LOG, ''WebSocket message received:''),
                (LOG, ''Parsed WebSocket message:''),
                (ERROR, ''Error parsing WebSocket message:'')]\<rparr>)
   \<and> member (JObj [(js ''type'', JStr (js ''task_added''))]) (js ''tasks'') = Inr None
   \<and> onmessage [js ''frame'' \<mapsto> JObj [(js ''type'', JStr (js ''task_added''))]]
        (\<lambda>m. js ''snapshot'') (js ''frame'') (page_load Map.empty Map.empty) =
       Inr ((page_load Map.empty Map.empty)\<lparr>console := console (page_load Map.empty Map.empty) @
               [(LOG, ''WebSocket message received:''),
                (LOG, ''Parsed WebSocket message:'')]\<rparr>)"
proof -
  let ?d = "JObj [(js ''type'', JStr (js ''task_added''))]"
  have m: "member ?d (js ''tasks'') = Inr None" by (simp add: js_def)
  from malformed_frames_dropped[where parse="Map.empty" and frame="js ''{oops''"]
       malformed_frames_dropped[where parse="[js ''null'' \<mapsto> JNull]" and frame="js ''null''"]
       malformed_frames_dropped[where parse="[js ''frame'' \<mapsto> ?d]" and frame="js ''frame''"]
       m
  show ?thesis by simp
qed

text \<open>
  The claim C4 as it is written fails on the code: the frame
  \<open>{"type": "task_added"}\<close> parses and has no \<open>tasks\<close> field, and handling it logs no error.
\<close>

theorem missing_tasks_logs_no_error:
  "(case onmessage [js ''frame'' \<mapsto> JObj [(js ''type'', JStr (js ''task_added''))]]
           (\<lambda>m. js ''snapshot'') (js ''frame'') (page_load Map.empty Map.empty) of
      Inl e \<Rightarrow> False
    | Inr s' \<Rightarrow> map fst (console s') = [LOG, LOG, LOG, LOG, LOG])"
  by (simp add: onmessage_def is_task_type_def load_defs js_def)

text \<open>
  C10. A frame that parses to a value other than \<open>null\<close> whose \<open>type\<close> is none of the three
  strings (or is missing) changes nothing but the console, which gets the two log entries
  of every parsed frame and no warning or error; a \<open>tasks\<close> field in the frame is not
  looked at.
\<close>

theorem other_types_ignored:
  assumes "parse frame = Some d"
      and "member d (js ''type'') = Inr ty"
      and "ty \<noteq> Some (JStr (js ''tasks_overview''))"
      and "ty \<noteq> Some (JStr (js ''task_added''))"
      and "ty \<noteq> Some (JStr (js ''task_toggled''))"
  shows "onmessage parse stringify frame s =
           Inr (s\<lparr>console := console s @
                  [(LOG, ''WebSocket message received:''),
                   (LOG, ''Parsed WebSocket message:'')]\<rparr>)"
  using assms by (auto simp: onmessage_def is_task_type_def Let_def console_log_def)

theorem other_types_ignored_witness:
  "onmessage
     [js ''frame'' \<mapsto> JObj [(js ''type'', JStr (js ''task_removed'')), (js ''tasks'', JArr [])]]
     (\<lambda>m. js ''snapshot'') (js ''frame'')
     ((page_load Map.empty Map.empty)\<lparr>tasks := JArr [JNull]\<rparr>)
   = Inr ((page_load Map.empty Map.empty)
            \<lparr>tasks := JArr [JNull],
             console := console (page_load Map.empty Map.empty) @
                  [(LOG, ''WebSocket message received:''),
                   (LOG, ''Parsed WebSocket message:'')]\<rparr>)"
proof -
  let ?d = "JObj [(js ''type'', JStr (js ''task_removed'')), (js ''tasks'', JArr [])]"
  let ?P = "[js ''frame'' \<mapsto> ?d]"
  have 1: "?P (js ''frame'') = Some ?d" by simp
  have 2: "member ?d (js ''type'') = Inr (Some (JStr (js ''task_removed'')))" by (simp add: js_def)
  have 3: "Some (JStr (js ''task_removed'')) \<noteq> Some (JStr (js ''tasks_overview''))"
          "Some (JStr (js ''task_removed'')) \<noteq> Some (JStr (js ''task_added''))"
          "Some (JStr (js ''task_removed'')) \<noteq> Some (JStr (js ''task_toggled''))"
    by (simp_all add: js_def)
  from other_types_ignored[where parse="?P" and frame="js ''frame''", OF 1 2 3]
  show ?thesis by simp
qed

section \<open>User intents\<close>

text \<open>
  C2, as the code has it. While \<open>wsConnected\<close> is false, each of the three handlers
  returns normally without a frame and without touching the list, so the state after the
  intent is the state before it plus at most one console entry: a warning for a refresh,
  for a toggle and for an add with text that does not trim to empty, and nothing at all
  for an add with blank text. The state keeps no record of the intent: from then on every
  run of events goes exactly as it would have gone without the intent, the console apart.
\<close>

theorem blocked_intents_send_nothing:
  assumes "\<not> wsConnected s"
  shows "fetchTasks S s = Inr (console_warn ''Cannot fetch tasks: WebSocket not connected'' s)
     \<and> handleToggleComplete S i s =
         Inr (console_warn ''Cannot toggle task: WebSocket not connected'' s)
     \<and> handleAddTask S s =
         Inr (if trim (newTaskText s) = [] then s
              else console_warn ''Cannot add task: WebSocket not connected'' s)
     \<and> (\<forall>m. sent (console_warn m s) = sent s \<and> getTasks (console_warn m s) = getTasks s
           \<and> (\<forall>evs. map_sum id quiet (run P S evs (console_warn m s))
                     = map_sum id quiet (run P S evs s)))"
  using assms
  by (auto simp: fetchTasks_def handleToggleComplete_def handleAddTask_def console_warn_def
        getTasks_def quiet_def intro!: run_quiet)

theorem blocked_intents_send_nothing_witness:
  "\<not> wsConnected ((page_load Map.empty Map.empty)\<lparr>newTaskText := js ''Buy milk''\<rparr>)
   \<and> fetchTasks (\<lambda>m. js ''frame'') ((page_load Map.empty Map.empty)\<lparr>newTaskText := js ''Buy milk''\<rparr>)
       = Inr (console_warn ''Cannot fetch tasks: WebSocket not connected''
               ((page_load Map.empty Map.empty)\<lparr>newTaskText := js ''Buy milk''\<rparr>))
   \<and> handleToggleComplete (\<lambda>m. js ''frame'') (Some (JStr (js ''t1'')))
         ((page_load Map.empty Map.empty)\<lparr>newTaskText := js ''Buy milk''\<rparr>)
       = Inr (console_warn ''Cannot toggle task: WebSocket not connected''
               ((page_load Map.empty Map.empty)\<lparr>newTaskText := js ''Buy milk''\<rparr>))
   \<and> handleAddTask (\<lambda>m. js ''frame'') ((page_load Map.empty Map.empty)\<lparr>newTaskText := js ''Buy milk''\<rparr>)
       = Inr (console_warn ''Cannot add task: WebSocket not connected''
               ((page_load Map.empty Map.empty)\<lparr>newTaskText := js ''Buy milk''\<rparr>))"
proof -
  let ?s = "(page_load Map.empty Map.empty)\<lparr>newTaskText := js ''Buy milk''\<rparr>"
  have c: "\<not> wsConnected ?s" by (simp add: page_load_fields)
  have t: "trim (newTaskText ?s) \<noteq> []" by (simp add: trim_def is_ws_def js_def)
  from blocked_intents_send_nothing[OF c, of "\<lambda>m. js ''frame''" "Some (JStr (js ''t1''))" Map.empty]
    c t
  show ?thesis by simp
qed

text \<open>
  The claim C2 as it is written fails on the code: right after the page has loaded the
  socket is not connected and the input field is empty, and submitting it leaves the
  whole state, console included, as it was. No warning is logged.
\<close>

theorem blank_add_logs_no_warning:
  "\<not> wsConnected (page_load Map.empty Map.empty)
   \<and> handleAddTask (\<lambda>m. js ''frame'') (page_load Map.empty Map.empty)
       = Inr (page_load Map.empty Map.empty)
   \<and> map fst (console (page_load Map.empty Map.empty)) = [LOG, LOG, LOG]"
  by (simp add: handleAddTask_def trim_def load_defs)

text \<open>
  C7. When the text of the input field is empty or trims to empty, \<open>handleAddTask\<close>
  returns at once with the state unchanged, so no frame is sent. And in every state the
  events can reach, the frames sent are the serialisations of messages none of which is an
  \<open>add_task\<close> with empty or blank text.
\<close>

theorem blank_text_never_sent:
  "(newTaskText s = [] \<or> trim (newTaskText s) = [] \<longrightarrow> handleAddTask S s = Inr s)
   \<and> (run P S evs (page_load P items) = Inr s' \<longrightarrow>
        (\<exists>msgs. sent s' = map S msgs \<and> (\<forall>t. trim t = [] \<longrightarrow> add_task_msg t \<notin> set msgs)))"
proof (intro conjI impI)
  assume "newTaskText s = [] \<or> trim (newTaskText s) = []"
  then have "trim (newTaskText s) = []" by (auto simp: trim_def)
  then show "handleAddTask S s = Inr s"
    by (simp add: handleAddTask_def)
next
  assume "run P S evs (page_load P items) = Inr s'"
  from reachable_inv[OF this]
  obtain msgs where m: "sent s' = map S msgs" "list_all action_msg msgs"
    by (auto simp: inv_def)
  from m(2) have "\<forall>t. trim t = [] \<longrightarrow> add_task_msg t \<notin> set msgs"
    by (auto simp: list_all_iff action_msg_def add_task_msg_distinct)
  with m(1)
  show "\<exists>msgs. sent s' = map S msgs \<and> (\<forall>t. trim t = [] \<longrightarrow> add_task_msg t \<notin> set msgs)"
    by blast
qed

theorem blank_text_never_sent_witness:
  "trim (js ''   '') = []
   \<and> handleAddTask (\<lambda>m. js ''frame'') ((page_load Map.empty Map.empty)\<lparr>newTaskText := js ''   ''\<rparr>)
       = Inr ((page_load Map.empty Map.empty)\<lparr>newTaskText := js ''   ''\<rparr>)
   \<and> (\<exists>s'. run Map.empty (\<lambda>m. js ''frame'') [Mount, SockOpen, ChangeText (js ''   ''), SubmitText]
              (page_load Map.empty Map.empty) = Inr s'
         \<and> (\<exists>msgs. sent s' = map (\<lambda>m. js ''frame'') msgs
               \<and> (\<forall>t. trim t = [] \<longrightarrow> add_task_msg t \<notin> set msgs)))"
proof -
  let ?s = "(page_load Map.empty Map.empty)\<lparr>newTaskText := js ''   ''\<rparr>"
  have t: "trim (js ''   '') = []" by (simp add: trim_def is_ws_def js_def)
  then have t': "newTaskText ?s = [] \<or> trim (newTaskText ?s) = []" by simp
  have "\<exists>s'. run Map.empty (\<lambda>m. js ''frame'') [Mount, SockOpen, ChangeText (js ''   ''), SubmitText]
              (page_load Map.empty Map.empty) = Inr s'"
    by (simp add: load_defs handler_defs t)
  then obtain s' where r: "run Map.empty (\<lambda>m. js ''frame'')
      [Mount, SockOpen, ChangeText (js ''   ''), SubmitText] (page_load Map.empty Map.empty) = Inr s'"
    by blast
  from blank_text_never_sent[of ?s "\<lambda>m. js ''frame''" Map.empty
      "[Mount, SockOpen, ChangeText (js ''   ''), SubmitText]" Map.empty s'] t t' r
  show ?thesis by auto
qed

section \<open>The connection\<close>

text \<open>
  C5. Take any run of events from a page load, and let the socket open in the state it
  reaches. Then the socket has not opened before in this run, the component is not yet
  connected and no frame has been sent; and after \<open>onopen\<close> exactly one frame has been
  sent, the serialised \<open>{action: "get_tasks"}\<close>, and the component is connected (unless it
  has unmounted meanwhile, when React drops the update). Every frame of a user intent
  needs the component connected and therefore comes after this one.
\<close>

theorem get_tasks_sent_first_on_open:
  assumes "run P S evs (page_load P items) = Inr s"
      and "fire P S SockOpen s = Inr s'"
  shows "SockOpen \<notin> set evs \<and> \<not> wsConnected s \<and> sent s = []
         \<and> wsConnected s' = (\<not> unmounted s)
         \<and> sent s' = [S (JObj [(js ''action'', JStr (js ''get_tasks''))])]"
proof -
  from assms(2) have c: "wsRef s" "readyState s = CONNECTING"
    by (auto split: if_splits)
  from run_after_SockOpen[OF assms(1)] c have 1: "SockOpen \<notin> set evs" by auto
  from reachable_inv[OF assms(1)] c have 2: "\<not> wsConnected s" "sent s = []"
    by (auto simp: inv_def)
  from assms(2) c 2
  have 3: "wsConnected s' = (\<not> unmounted s)"
          "sent s' = [S (JObj [(js ''action'', JStr (js ''get_tasks''))])]"
    by (auto simp: onopen_def ws_send_def handled_def console_log_def setWsConnected_def
          get_tasks_msg_def split: if_splits)
  from 1 2 3 show ?thesis by simp
qed

theorem get_tasks_sent_first_on_open_witness:
  "\<exists>s s'. run Map.empty
             (\<lambda>m. case member m (js ''action'') of Inr (Some (JStr a)) \<Rightarrow> a | _ \<Rightarrow> [])
             [Refresh, Mount, ChangeText (js ''Buy milk''), SubmitText, Refresh]
             (page_load Map.empty Map.empty) = Inr s
     \<and> fire Map.empty
             (\<lambda>m. case member m (js ''action'') of Inr (Some (JStr a)) \<Rightarrow> a | _ \<Rightarrow> [])
             SockOpen s = Inr s'
     \<and> sent s = [] \<and> wsConnected s' \<and> sent s' = [js ''get_tasks'']"
proof -
  let ?S = "\<lambda>m. case member m (js ''action'') of Inr (Some (JStr a)) \<Rightarrow> a | _ \<Rightarrow> []"
  let ?evs = "[Refresh, Mount, ChangeText (js ''Buy milk''), SubmitText, Refresh]"
  have "\<exists>s. run Map.empty ?S ?evs (page_load Map.empty Map.empty) = Inr s
          \<and> \<not> unmounted s
          \<and> (\<exists>s'. fire Map.empty ?S SockOpen s = Inr s')"
    by (simp add: load_defs handler_defs trim_def is_ws_def js_def)
  then obtain s s' where
    h: "run Map.empty ?S ?evs (page_load Map.empty Map.empty) = Inr s"
       "fire Map.empty ?S SockOpen s = Inr s'"
    and u: "\<not> unmounted s"
    by blast
  have g: "?S (JObj [(js ''action'', JStr (js ''get_tasks''))]) = js ''get_tasks''"
    by (simp add: js_def)
  from get_tasks_sent_first_on_open[OF h] h u g show ?thesis by auto
qed

text \<open>
  C6, as the code has it. In every state the events can reach, each frame the socket has
  sent is the serialisation of \<open>{action: "get_tasks"}\<close>, of
  \<open>{action: "add_task", text: t}\<close> for a string \<open>t\<close>, or of a \<open>toggle_task\<close> message whose
  \<open>id\<close> is whatever value the ticked task of the stored list has as its \<open>id\<close>: any JSON
  value, and no \<open>id\<close> property at all when the task has none. A user intent appends
  exactly one frame, the one of its own shape, when the component is connected and the
  socket is open (and, for an add, the text does not trim to empty), and no frame
  otherwise; the frame of a toggle carries the \<open>id\<close> of the task at the ticked index, so
  it is a string exactly when the list holds a string there.
\<close>

theorem outbound_frame_shapes:
  assumes "run P S evs (page_load P items) = Inr s"
  shows "(\<exists>msgs. sent s = map S msgs
            \<and> (\<forall>m \<in> set msgs. m = JObj [(js ''action'', JStr (js ''get_tasks''))]
                  \<or> (\<exists>t. m = JObj [(js ''action'', JStr (js ''add_task'')), (js ''text'', JStr t)])
                  \<or> m = JObj [(js ''action'', JStr (js ''toggle_task''))]
                  \<or> (\<exists>v. m = JObj [(js ''action'', JStr (js ''toggle_task'')), (js ''id'', v)])))
      \<and> (\<forall>s'. fire P S Refresh s = Inr s' \<longrightarrow>
            sent s' = sent s @ (if wsConnected s \<and> readyState s = OPEN
                               then [S (JObj [(js ''action'', JStr (js ''get_tasks''))])] else []))
      \<and> (\<forall>s'. fire P S SubmitText s = Inr s' \<longrightarrow>
            sent s' = sent s @ (if trim (newTaskText s) \<noteq> [] \<and> wsConnected s \<and> readyState s = OPEN
                               then [S (JObj [(js ''action'', JStr (js ''add_task'')),
                                              (js ''text'', JStr (newTaskText s))])] else []))
      \<and> (\<forall>k s'. fire P S (ToggleTask k) s = Inr s' \<longrightarrow>
            (\<exists>ts taskId. tasks s = JArr ts \<and> k < length ts
               \<and> member (ts ! k) (js ''id'') = Inr taskId
               \<and> sent s' = sent s @ (if wsConnected s \<and> readyState s = OPEN
                    then [S (case taskId of
                               None \<Rightarrow> JObj [(js ''action'', JStr (js ''toggle_task''))]
                             | Some v \<Rightarrow> JObj [(js ''action'', JStr (js ''toggle_task'')),
                                                (js ''id'', v)])]
                    else [])))"
proof -
  note i = reachable_inv[OF assms]
  then obtain msgs where m: "sent s = map S msgs" "list_all action_msg msgs"
    by (auto simp: inv_def)
  from m(2) have "\<forall>m \<in> set msgs. m = JObj [(js ''action'', JStr (js ''get_tasks''))]
                  \<or> (\<exists>t. m = JObj [(js ''action'', JStr (js ''add_task'')), (js ''text'', JStr t)])
                  \<or> m = JObj [(js ''action'', JStr (js ''toggle_task''))]
                  \<or> (\<exists>v. m = JObj [(js ''action'', JStr (js ''toggle_task'')), (js ''id'', v)])"
    by (auto simp: list_all_iff action_msg_def get_tasks_msg_def add_task_msg_def
          toggle_task_msg_def split: option.splits)
  with m(1) have 1: "\<exists>msgs. sent s = map S msgs
            \<and> (\<forall>m \<in> set msgs. m = JObj [(js ''action'', JStr (js ''get_tasks''))]
                  \<or> (\<exists>t. m = JObj [(js ''action'', JStr (js ''add_task'')), (js ''text'', JStr t)])
                  \<or> m = JObj [(js ''action'', JStr (js ''toggle_task''))]
                  \<or> (\<exists>v. m = JObj [(js ''action'', JStr (js ''toggle_task'')), (js ''id'', v)]))"
    by blast
  from i have c: "wsConnected s \<longrightarrow> wsRef s" by (simp add: inv_def)
  have 2: "\<forall>s'. fire P S Refresh s = Inr s' \<longrightarrow>
            sent s' = sent s @ (if wsConnected s \<and> readyState s = OPEN
                               then [S (JObj [(js ''action'', JStr (js ''get_tasks''))])] else [])"
    using c by (auto simp: handler_defs get_tasks_msg_def split: if_splits)
  have 3: "\<forall>s'. fire P S SubmitText s = Inr s' \<longrightarrow>
            sent s' = sent s @ (if trim (newTaskText s) \<noteq> [] \<and> wsConnected s \<and> readyState s = OPEN
                               then [S (JObj [(js ''action'', JStr (js ''add_task'')),
                                              (js ''text'', JStr (newTaskText s))])] else [])"
    using c by (auto simp: handler_defs add_task_msg_def split: if_splits)
  have 4: "\<forall>k s'. fire P S (ToggleTask k) s = Inr s' \<longrightarrow>
            (\<exists>ts taskId. tasks s = JArr ts \<and> k < length ts
               \<and> member (ts ! k) (js ''id'') = Inr taskId
               \<and> sent s' = sent s @ (if wsConnected s \<and> readyState s = OPEN
                    then [S (case taskId of
                               None \<Rightarrow> JObj [(js ''action'', JStr (js ''toggle_task''))]
                             | Some v \<Rightarrow> JObj [(js ''action'', JStr (js ''toggle_task'')),
                                                (js ''id'', v)])]
                    else []))"
  proof (intro allI impI)
    fix k s'
    assume f: "fire P S (ToggleTask k) s = Inr s'"
    then obtain taskId where t: "task_checkbox k s = Some taskId" "\<not> unmounted s"
      "handleToggleComplete S taskId s = Inr s'"
      by (auto simp: handled_def split: if_splits option.splits sum.splits)
    from t(1) obtain ts where ts: "tasks s = JArr ts" "k < length ts"
      "member (ts ! k) (js ''id'') = Inr taskId"
      by (auto simp: task_checkbox_def split: json.splits if_splits sum.splits)
    from t(3) c have "sent s' = sent s @ (if wsConnected s \<and> readyState s = OPEN
                    then [S (toggle_task_msg taskId)] else [])"
      by (auto simp: handler_defs split: if_splits)
    with ts show "\<exists>ts taskId. tasks s = JArr ts \<and> k < length ts
               \<and> member (ts ! k) (js ''id'') = Inr taskId
               \<and> sent s' = sent s @ (if wsConnected s \<and> readyState s = OPEN
                    then [S (case taskId of
                               None \<Rightarrow> JObj [(js ''action'', JStr (js ''toggle_task''))]
                             | Some v \<Rightarrow> JObj [(js ''action'', JStr (js ''toggle_task'')),
                                                (js ''id'', v)])]
                    else [])"
      by (auto simp: toggle_task_msg_def)
  qed
  from 1 2 3 4 show ?thesis by blast
qed

theorem outbound_frame_shapes_witness:
  "\<exists>s s'. run [js ''frame'' \<mapsto> JObj [(js ''type'', JStr (js ''tasks_overview'')),
                  (js ''tasks'', JArr [JObj [(js ''id'', JStr (js ''t1'')),
                     (js ''text'', JStr (js ''Buy milk'')), (js ''completed'', JBool False)]])]]
             (\<lambda>m. case m of
                     JObj kvs \<Rightarrow> concat (map (\<lambda>(k, v). k @ js ''='' @
                        (case v of JStr t \<Rightarrow> t | _ \<Rightarrow> js ''<not a string>'') @ js '';'') kvs)
                   | _ \<Rightarrow> [])
             [Mount, SockOpen, SockMessage (js ''frame''), ChangeText (js ''Call''), SubmitText,
              Refresh]
             (page_load [js ''frame'' \<mapsto> JObj [(js ''type'', JStr (js ''tasks_overview'')),
                  (js ''tasks'', JArr [JObj [(js ''id'', JStr (js ''t1'')),
                     (js ''text'', JStr (js ''Buy milk'')), (js ''completed'', JBool False)]])]]
                Map.empty) = Inr s
     \<and> sent s = [js ''action=get_tasks;'', js ''action=add_task;text=Call;'',
                 js ''action=get_tasks;'']
     \<and> fire [js ''frame'' \<mapsto> JObj [(js ''type'', JStr (js ''tasks_overview'')),
                  (js ''tasks'', JArr [JObj [(js ''id'', JStr (js ''t1'')),
                     (js ''text'', JStr (js ''Buy milk'')), (js ''completed'', JBool False)]])]]
             (\<lambda>m. case m of
                     JObj kvs \<Rightarrow> concat (map (\<lambda>(k, v). k @ js ''='' @
                        (case v of JStr t \<Rightarrow> t | _ \<Rightarrow> js ''<not a string>'') @ js '';'') kvs)
                   | _ \<Rightarrow> [])
             (ToggleTask 0) s = Inr s'
     \<and> sent s' = [js ''action=get_tasks;'', js ''action=add_task;text=Call;'',
                  js ''action=get_tasks;'', js ''action=toggle_task;id=t1;'']"
proof -
  let ?P = "[js ''frame'' \<mapsto> JObj [(js ''type'', JStr (js ''tasks_overview'')),
                  (js ''tasks'', JArr [JObj [(js ''id'', JStr (js ''t1'')),
                     (js ''text'', JStr (js ''Buy milk'')), (js ''completed'', JBool False)]])]]"
  let ?S = "\<lambda>m. case m of
                     JObj kvs \<Rightarrow> concat (map (\<lambda>(k, v). k @ js ''='' @
                        (case v of JStr t \<Rightarrow> t | _ \<Rightarrow> js ''<not a string>'') @ js '';'') kvs)
                   | _ \<Rightarrow> []"
  let ?evs = "[Mount, SockOpen, SockMessage (js ''frame''), ChangeText (js ''Call''), SubmitText,
              Refresh]"
  have "\<exists>s. run ?P ?S ?evs (page_load ?P Map.empty) = Inr s
          \<and> sent s = [js ''action=get_tasks;'', js ''action=add_task;text=Call;'',
                      js ''action=get_tasks;'']
          \<and> wsConnected s \<and> readyState s = OPEN
          \<and> tasks s = JArr [JObj [(js ''id'', JStr (js ''t1'')),
                     (js ''text'', JStr (js ''Buy milk'')), (js ''completed'', JBool False)]]
          \<and> (\<exists>s'. fire ?P ?S (ToggleTask 0) s = Inr s')"
    by (simp add: load_defs handler_defs trim_def is_ws_def js_def is_task_type_def
          task_checkbox_def get_tasks_msg_def add_task_msg_def toggle_task_msg_def)
  then obtain s s' where
    h: "run ?P ?S ?evs (page_load ?P Map.empty) = Inr s"
       "sent s = [js ''action=get_tasks;'', js ''action=add_task;text=Call;'',
                  js ''action=get_tasks;'']"
       "wsConnected s" "readyState s = OPEN"
       "tasks s = JArr [JObj [(js ''id'', JStr (js ''t1'')),
                     (js ''text'', JStr (js ''Buy milk'')), (js ''completed'', JBool False)]]"
       "fire ?P ?S (ToggleTask 0) s = Inr s'"
    by blast
  from outbound_frame_shapes[OF h(1)] h(6)
  obtain ts taskId where
    t: "tasks s = JArr ts" "member (ts ! 0) (js ''id'') = Inr taskId"
       "sent s' = sent s @ (if wsConnected s \<and> readyState s = OPEN
                    then [?S (case taskId of
                               None \<Rightarrow> JObj [(js ''action'', JStr (js ''toggle_task''))]
                             | Some v \<Rightarrow> JObj [(js ''action'', JStr (js ''toggle_task'')),
                                                (js ''id'', v)])]
                    else [])"
    by blast
  from t(1,2) h(5) have "taskId = Some (JStr (js ''t1''))" by (auto simp: js_def)
  with t(3) h(2,3,4)
  have "sent s' = [js ''action=get_tasks;'', js ''action=add_task;text=Call;'',
                  js ''action=get_tasks;'', js ''action=toggle_task;id=t1;'']"
    by (simp add: js_def)
  with h show ?thesis by blast
qed

text \<open>
  The claim C6 as it is written fails on the code. The server sends a list whose first
  task has the number 5 as its \<open>id\<close> and whose second task has no \<open>id\<close>; the client stores
  it as it is, and ticking the two tasks sends \<open>{action: "toggle_task", id: 5}\<close> and
  \<open>{action: "toggle_task"}\<close>, neither of them one of the three shapes. (The serialiser of
  this example writes each property as \<open>name=value;\<close> and a value that is not a string as
  \<open><not a string>\<close>.)
\<close>

theorem toggle_sends_stored_id_unchecked:
  "(case run [js ''frame'' \<mapsto> JObj [(js ''type'', JStr (js ''tasks_overview'')),
                  (js ''tasks'', JArr [JObj [(js ''id'', JNum 5),
                       (js ''text'', JStr (js ''Buy milk'')), (js ''completed'', JBool False)],
                     JObj [(js ''text'', JStr (js ''Call'')), (js ''completed'', JBool False)]])]]
             (\<lambda>m. case m of
                     JObj kvs \<Rightarrow> concat (map (\<lambda>(k, v). k @ js ''='' @
                        (case v of JStr t \<Rightarrow> t | _ \<Rightarrow> js ''<not a string>'') @ js '';'') kvs)
                   | _ \<Rightarrow> [])
             [Mount, SockOpen, SockMessage (js ''frame''), ToggleTask 0, ToggleTask 1]
             (page_load Map.empty Map.empty) of
      Inl f \<Rightarrow> False
    | Inr s \<Rightarrow>
        sent s = map (\<lambda>m. case m of
                     JObj kvs \<Rightarrow> concat (map (\<lambda>(k, v). k @ js ''='' @
                        (case v of JStr t \<Rightarrow> t | _ \<Rightarrow> js ''<not a string>'') @ js '';'') kvs)
                   | _ \<Rightarrow> [])
                   [JObj [(js ''action'', JStr (js ''get_tasks''))],
                    JObj [(js ''action'', JStr (js ''toggle_task'')), (js ''id'', JNum 5)],
                    JObj [(js ''action'', JStr (js ''toggle_task''))]]
        \<and> sent s = [js ''action=get_tasks;'', js ''action=toggle_task;id=<not a string>;'',
                    js ''action=toggle_task;''])"
  by (simp add: load_defs handler_defs js_def is_task_type_def task_checkbox_def
        get_tasks_msg_def toggle_task_msg_def)

section \<open>Unmounting\<close>

text \<open>
  What the cleanup does to the socket in a state the events can reach: it calls \<open>close\<close>
  exactly when the socket is open, and the socket then starts closing; in every other
  ready state it leaves the socket as it is. A connected component therefore ends with
  its socket closing or closed.
\<close>

lemma unmount_closes_open_socket:
  assumes "run P S evs (page_load P items) = Inr s"
      and "fire P S Unmount s = Inr s'"
  shows "(readyState s = OPEN \<longrightarrow> readyState s' = CLOSING)
       \<and> (readyState s \<noteq> OPEN \<longrightarrow> readyState s' = readyState s)
       \<and> (wsConnected s \<longrightarrow> readyState s' = CLOSING \<or> readyState s' = CLOSED)"
proof -
  from reachable_inv[OF assms(1)] have "wsConnected s \<longrightarrow> readyState s \<noteq> CONNECTING"
    by (simp add: inv_def)
  with assms(2) show ?thesis
    by (cases "readyState s")
       (auto simp: cleanup_def ws_close_def console_log_def Let_def split: if_splits)
qed

text \<open>
  A socket that is still connecting when the component unmounts is not closed: it stays
  connecting, it can still open, and when it does \<open>onopen\<close> sends its frame on behalf of a
  component that is gone.
\<close>

lemma unmount_leaves_connecting_socket:
  assumes "run P S evs (page_load P items) = Inr s"
      and "readyState s = CONNECTING"
      and "fire P S Unmount s = Inr s'"
  shows "unmounted s' \<and> readyState s' = CONNECTING
       \<and> (\<exists>s''. fire P S SockOpen s' = Inr s'' \<and> readyState s'' = OPEN
              \<and> sent s'' = [S (JObj [(js ''action'', JStr (js ''get_tasks''))])])"
proof -
  from reachable_inv[OF assms(1)] assms(2) have "sent s = []" by (simp add: inv_def)
  with assms(2,3) show ?thesis
    by (auto simp: handler_defs get_tasks_msg_def Let_def split: if_splits)
qed

text \<open>
  C9. The claim asks that the connection is released on every exit path of the
  component's lifetime. The code does so only when the socket is open at unmount. Here the
  component unmounts before the socket has opened: the cleanup logs that it closes the
  connection and does not, the socket stays connecting, and when it opens afterwards
  \<open>onopen\<close> still sends \<open>get_tasks\<close>.
\<close>

theorem unmount_while_connecting_keeps_socket:
  "(case run Map.empty
           (\<lambda>m. case member m (js ''action'') of Inr (Some (JStr a)) \<Rightarrow> a | _ \<Rightarrow> [])
           [Mount, Unmount] (page_load Map.empty Map.empty) of
      Inl f \<Rightarrow> False
    | Inr s \<Rightarrow> unmounted s \<and> readyState s = CONNECTING
              \<and> last (console s) = (LOG, ''Closing WebSocket connection''))
 \<and> (case run Map.empty
           (\<lambda>m. case member m (js ''action'') of Inr (Some (JStr a)) \<Rightarrow> a | _ \<Rightarrow> [])
           [Mount, Unmount, SockOpen] (page_load Map.empty Map.empty) of
      Inl f \<Rightarrow> False
    | Inr s \<Rightarrow> unmounted s \<and> readyState s = OPEN \<and> sent s = [js ''get_tasks''])"
  by (simp add: load_defs handler_defs get_tasks_msg_def js_def)

section \<open>Persistence\<close>

text \<open>
  C8. Every \<open>setTasks\<close> call stores the serialised list under the one key \<open>todo-store\<close>
  of \<open>sessionStorage\<close> and leaves every other entry alone. The storage is read once while
  the page loads, when no socket exists yet, and never again in any run of events. And
  when the page is loaded again with the entries a run has left (and \<open>JSON.parse\<close> gives
  back what \<open>JSON.stringify\<close> was given for the stored value), the store holds the list it
  held at the end of that run, before the effect has created a socket.
\<close>

theorem tasks_persisted_and_restored:
  "persist_name = js ''todo-store''
   \<and> storageItems (setTasks S L s) = (storageItems s)(persist_name \<mapsto> S (stored_value L))
   \<and> storageReads (page_load P items) = 1
   \<and> \<not> wsRef (page_load P items)
   \<and> (run P S evs (page_load P items) = Inr s' \<longrightarrow> storageReads s' = 1)
   \<and> (run P S evs (page_load P items) = Inr s'
        \<and> P (S (stored_value (tasks s'))) = Some (stored_value (tasks s'))
       \<longrightarrow> getTasks (page_load P (storageItems s')) = getTasks s'
           \<and> \<not> wsRef (page_load P (storageItems s')))"
proof (intro conjI impI)
  show "storageItems (setTasks S L s) = (storageItems s)(persist_name \<mapsto> S (stored_value L))"
    by (simp add: setTasks_def persist_write_def storage_setItem_def)
next
  assume "run P S evs (page_load P items) = Inr s'"
  from reachable_inv[OF this] show "storageReads s' = 1" by (simp add: inv_def)
next
  assume a: "run P S evs (page_load P items) = Inr s'
        \<and> P (S (stored_value (tasks s'))) = Some (stored_value (tasks s'))"
  from reachable_inv[of P S evs items s'] a
  have "storageItems s' = items \<and> tasks s' = tasks (page_load P items)
        \<or> storageItems s' = items(persist_name \<mapsto> S (stored_value (tasks s')))"
    by (simp add: inv_def)
  then show "getTasks (page_load P (storageItems s')) = getTasks s'"
  proof
    assume "storageItems s' = items \<and> tasks s' = tasks (page_load P items)"
    then show ?thesis by (simp add: getTasks_def)
  next
    assume "storageItems s' = items(persist_name \<mapsto> S (stored_value (tasks s')))"
    with a show ?thesis
      by (simp add: getTasks_def page_load_def console_log_def hydrate_def storage_getItem_def
          merge_stored_def stored_value_def js_def)
  qed
qed (simp_all add: page_load_fields persist_name_def)

theorem tasks_persisted_and_restored_witness:
  "\<exists>s'. run [js ''frame'' \<mapsto> JObj [(js ''type'', JStr (js ''tasks_overview'')),
                                   (js ''tasks'', JArr [JStr (js ''t1'')])],
             js ''snapshot'' \<mapsto> stored_value (JArr [JStr (js ''t1'')])]
            (\<lambda>m. js ''snapshot'') [Mount, SockOpen, SockMessage (js ''frame'')]
            (page_load [js ''frame'' \<mapsto> JObj [(js ''type'', JStr (js ''tasks_overview'')),
                                   (js ''tasks'', JArr [JStr (js ''t1'')])],
                        js ''snapshot'' \<mapsto> stored_value (JArr [JStr (js ''t1'')])] Map.empty) = Inr s'
     \<and> getTasks s' = JArr [JStr (js ''t1'')]
     \<and> storageItems s' (js ''todo-store'') = Some (js ''snapshot'')
     \<and> storageReads s' = 1
     \<and> getTasks (page_load [js ''frame'' \<mapsto> JObj [(js ''type'', JStr (js ''tasks_overview'')),
                                   (js ''tasks'', JArr [JStr (js ''t1'')])],
                        js ''snapshot'' \<mapsto> stored_value (JArr [JStr (js ''t1'')])] (storageItems s'))
         = JArr [JStr (js ''t1'')]"
proof -
  let ?P = "[js ''frame'' \<mapsto> JObj [(js ''type'', JStr (js ''tasks_overview'')),
                                   (js ''tasks'', JArr [JStr (js ''t1'')])],
             js ''snapshot'' \<mapsto> stored_value (JArr [JStr (js ''t1'')])]"
  let ?S = "\<lambda>m::json. js ''snapshot''"
  have "\<exists>s'. run ?P ?S [Mount, SockOpen, SockMessage (js ''frame'')] (page_load ?P Map.empty) = Inr s'
          \<and> tasks s' = JArr [JStr (js ''t1'')]
          \<and> storageItems s' (js ''todo-store'') = Some (js ''snapshot'')"
    by (simp add: load_defs handler_defs is_task_type_def js_def)
  then obtain s' where
    h: "run ?P ?S [Mount, SockOpen, SockMessage (js ''frame'')] (page_load ?P Map.empty) = Inr s'"
       "tasks s' = JArr [JStr (js ''t1'')]"
       "storageItems s' (js ''todo-store'') = Some (js ''snapshot'')"
    by blast
  have rt: "?P (?S (stored_value (tasks s'))) = Some (stored_value (tasks s'))"
    using h(2) by (simp add: js_def)
  from tasks_persisted_and_restored[of ?S _ _ ?P Map.empty
         "[Mount, SockOpen, SockMessage (js ''frame'')]" s'] h rt
  show ?thesis by (auto simp: getTasks_def)
qed

end
